theory Spec2Isabelle
  imports Complex_Main
begin

section \<open>Strings\<close>

text \<open>
  A JavaScript string is modelled as a \<^typ>\<open>string\<close>, one \<^typ>\<open>char\<close> per UTF-16
  code unit, for the code units below 256 (ASCII and Latin-1). On these, \<open>length\<close> is
  \<open>String.length\<close>; the class \<open>\s\<close> of a regular expression, and the characters that
  \<open>trim\<close> strips, are the tab, the line feed, the vertical tab, the form feed, the
  carriage return, the space and the no-break space; and \<open>toLowerCase\<close> adds 32 to
  the code units of \<open>A..Z\<close> and of the Latin-1 capital letters (192 to 222 but the
  multiplication sign 215) and leaves every other one as it is.
\<close>

definition isWhitespace :: "char \<Rightarrow> bool" where
  "isWhitespace c \<longleftrightarrow> (of_char c :: nat) \<in> {9, 10, 11, 12, 13, 32, 160}"

definition toLowerChar :: "char \<Rightarrow> char" where
  "toLowerChar c =
     (let n = (of_char c :: nat)
      in if (65 \<le> n \<and> n \<le> 90) \<or> (192 \<le> n \<and> n \<le> 222 \<and> n \<noteq> 215) then char_of (n + 32)
         else c)"

definition toLowerCase :: "string \<Rightarrow> string" where
  "toLowerCase s = map toLowerChar s"

text \<open>
  \<open>s.split(/\s+/)\<close>: the pieces between the maximal runs of whitespace. A run at either
  end of the string leaves an empty piece there, and the result is never the empty array.
\<close>

fun splitWs :: "string \<Rightarrow> string list" where
  "splitWs [] = [[]]"
| "splitWs [c] = (if isWhitespace c then [[], []] else [[c]])"
| "splitWs (c # d # cs) =
     (if isWhitespace c then
        (if isWhitespace d then splitWs (d # cs) else [] # splitWs (d # cs))
      else
        (case splitWs (d # cs) of
           [] \<Rightarrow> [[c]]
         | w # ws \<Rightarrow> (c # w) # ws))"

text \<open>\<open>s.split(' ')\<close>: the pieces between the single space characters.\<close>

fun splitSpace :: "string \<Rightarrow> string list" where
  "splitSpace [] = [[]]"
| "splitSpace (c # cs) =
     (if c = CHR '' '' then [] # splitSpace cs
      else
        (case splitSpace cs of
           [] \<Rightarrow> [[c]]
         | w # ws \<Rightarrow> (c # w) # ws))"

text \<open>\<open>xs.join(sep)\<close>\<close>

fun join :: "string \<Rightarrow> string list \<Rightarrow> string" where
  "join sep [] = []"
| "join sep [x] = x"
| "join sep (x # y # ys) = x @ sep @ join sep (y # ys)"

text \<open>\<open>s.trim()\<close>\<close>

definition trim :: "string \<Rightarrow> string" where
  "trim s = rev (dropWhile isWhitespace (rev (dropWhile isWhitespace s)))"

section \<open>Similarity gate\<close>

text \<open>
  \<open>calculateSimilarity\<close> (part_001, lines 462-469). The two \<open>Set\<close>s are sets of strings
  and \<open>size\<close> is \<^const>\<open>card\<close>. The quotient of the two sizes is a \<^typ>\<open>rat\<close>: both sizes
  are at most the length of a string, far below \<open>2^53\<close>, so the double the source
  computes compares with \<open>0.85\<close>, \<open>0\<close> and \<open>1\<close> as the exact quotient does.
\<close>

definition calculateSimilarity :: "string \<Rightarrow> string \<Rightarrow> rat" where
  "calculateSimilarity text1 text2 =
     (if text1 = [] \<or> text2 = [] then 0
      else
        let words1 = set (splitWs (toLowerCase text1));
            words2 = set (splitWs (toLowerCase text2));
            intersection = Set.filter (\<lambda>x. x \<in> words2) words1;
            union = words1 \<union> words2
        in if card union > 0 then of_nat (card intersection) / of_nat (card union) else 0)"

section \<open>Disease aggregator\<close>

text \<open>
  \<open>DiseaseHighlight\<close> (part_001, lines 33-41). The optional fields are options; the
  numbers \<open>confidence\<close> and \<open>position\<close> are only stored and passed on.
\<close>

datatype Severity = Low | Medium | High

record DiseaseHighlight =
  disease :: string
  disease_name :: "string option"
  icd10_code :: "string option"
  confidence :: rat
  severity :: Severity
  position :: "nat \<times> nat"
  supporting_symptoms :: "string list option"

text \<open>
  The updater given to \<open>setDiseases\<close> in \<open>detectDiseases\<close> (part_001, lines 502-506):
  \<open>prev\<close> is the stored list, \<open>detections\<close> is \<open>data.detections\<close>.
\<close>

definition mergeDetections :: "DiseaseHighlight list \<Rightarrow> DiseaseHighlight list \<Rightarrow> DiseaseHighlight list" where
  "mergeDetections prev detections =
     (let existing = set (map disease_name prev);
          newDetections = filter (\<lambda>d. disease_name d \<notin> existing) detections
      in prev @ newDetections)"

section \<open>Transcript messages and their formatting\<close>

text \<open>
  A parsed inbound message: \<open>{text, words?: [{word, speaker_tag}], is_final, error?}\<close>.
  A missing field is \<open>None\<close>. \<open>truthy\<close> is JavaScript's truth value of an optional
  string: missing and empty are both false.
\<close>

record TranscriptWord =
  word :: string
  speaker_tag :: "string option"

record Message =
  msg_error :: "string option"
  msg_text :: "string option"
  msg_words :: "TranscriptWord list option"
  msg_is_final :: bool

datatype Frame = BinaryFrame | UnparsableFrame | JsonFrame Message

definition truthy :: "string option \<Rightarrow> bool" where
  "truthy v = (case v of None \<Rightarrow> False | Some s \<Rightarrow> s \<noteq> [])"

datatype JsError = TypeError | InvalidStateError

text \<open>
  \<open>speakerGroups\<close> is a plain object used as a dictionary: an association list in the
  order its keys were created. A key that names a property inherited from
  \<open>Object.prototype\<close> reads as that property, which is truthy and has no \<open>push\<close>:
  the call \<open>speakerGroups[speaker].push(word.word)\<close> raises a TypeError.
\<close>

definition objectPrototypeKeys :: "string list" where
  "objectPrototypeKeys =
     [''constructor'', ''__proto__'', ''hasOwnProperty'', ''isPrototypeOf'',
      ''propertyIsEnumerable'', ''toString'', ''toLocaleString'', ''valueOf'',
      ''__defineGetter__'', ''__defineSetter__'', ''__lookupGetter__'', ''__lookupSetter__'']"

definition speakerOf :: "TranscriptWord \<Rightarrow> string" where
  "speakerOf w = (if truthy (speaker_tag w) then the (speaker_tag w) else ''SPEAKER_1'')"

definition addWord :: "(string \<times> string list) list \<Rightarrow> TranscriptWord \<Rightarrow> JsError + (string \<times> string list) list" where
  "addWord speakerGroups w =
     (let speaker = speakerOf w in
      if speaker \<in> set objectPrototypeKeys then Inl TypeError
      else
        (case map_of speakerGroups speaker of
           None \<Rightarrow> Inr (speakerGroups @ [(speaker, [word w])])
         | Some _ \<Rightarrow>
             Inr (map (\<lambda>(k, ws). if k = speaker then (k, ws @ [word w]) else (k, ws)) speakerGroups)))"

fun groupWords :: "(string \<times> string list) list \<Rightarrow> TranscriptWord list \<Rightarrow> JsError + (string \<times> string list) list" where
  "groupWords speakerGroups [] = Inr speakerGroups"
| "groupWords speakerGroups (w # ws) =
     (case addWord speakerGroups w of
        Inl e \<Rightarrow> Inl e
      | Inr speakerGroups' \<Rightarrow> groupWords speakerGroups' ws)"

text \<open>
  \<open>Object.entries\<close>: the keys that are array indices (canonical decimal numerals below
  \<open>2^32 - 1\<close>) come first, in ascending order, then the other keys in creation order.
\<close>

definition isDigit :: "char \<Rightarrow> bool" where
  "isDigit c \<longleftrightarrow> 48 \<le> (of_char c :: nat) \<and> (of_char c :: nat) \<le> 57"

definition arrayIndex :: "string \<Rightarrow> int option" where
  "arrayIndex k =
     (if k \<noteq> [] \<and> list_all isDigit k \<and> (length k = 1 \<or> hd k \<noteq> CHR ''0'') then
        (let n = foldl (\<lambda>a c. 10 * a + ((of_char c :: int) - 48)) 0 k
         in if n < 4294967295 then Some n else None)
      else None)"

definition objectEntries :: "(string \<times> 'a) list \<Rightarrow> (string \<times> 'a) list" where
  "objectEntries obj =
     sort_key (\<lambda>(k, _). case arrayIndex k of None \<Rightarrow> 0 | Some n \<Rightarrow> n)
       (filter (\<lambda>(k, _). arrayIndex k \<noteq> None) obj)
     @ filter (\<lambda>(k, _). arrayIndex k = None) obj"

definition renderGroup :: "string \<times> string list \<Rightarrow> string" where
  "renderGroup e =
     (case e of (speaker, ws) \<Rightarrow>
        (let speakerLabel = (if speaker = ''SPEAKER_2'' then ''Patient'' else ''Doctor'')
         in speakerLabel @ '': '' @ join '' '' ws))"

text \<open>
  The computation of \<open>formattedText\<close> in the \<open>onmessage\<close> handler (part_001, lines
  306-323), for a message whose text \<open>t\<close> is truthy.
\<close>

definition formatText :: "string \<Rightarrow> TranscriptWord list option \<Rightarrow> JsError + string" where
  "formatText t ws =
     (case ws of
        None \<Rightarrow> Inr t
      | Some wl \<Rightarrow>
          if length wl > 0 then
            (case groupWords [] wl of
               Inl e \<Rightarrow> Inl e
             | Inr speakerGroups \<Rightarrow> Inr (join [CHR 0x0A] (map renderGroup (objectEntries speakerGroups))))
          else Inr t)"

section \<open>Application state\<close>

text \<open>
  The WebSocket of \<open>wsRef\<close>: its \<open>readyState\<close> and, as \<open>wsLog\<close>, the calls of
  \<open>send\<close> and \<open>close\<close> that reached the connection, oldest first.
\<close>

datatype ReadyState = CONNECTING | OPEN | CLOSING | CLOSED

datatype WsOp = Send string | Close nat string

record WebSocket =
  readyState :: ReadyState
  wsLog :: "WsOp list"

text \<open>
  \<open>WebSocket.send\<close> raises InvalidStateError while connecting, transmits when open and
  discards the data otherwise; \<open>WebSocket.close\<close> does nothing on a socket that is
  closing or closed and otherwise starts the closing handshake.
\<close>

definition ws_send :: "string \<Rightarrow> WebSocket \<Rightarrow> JsError + WebSocket" where
  "ws_send d ws =
     (case readyState ws of
        CONNECTING \<Rightarrow> Inl InvalidStateError
      | OPEN \<Rightarrow> Inr (ws\<lparr>wsLog := wsLog ws @ [Send d]\<rparr>)
      | CLOSING \<Rightarrow> Inr ws
      | CLOSED \<Rightarrow> Inr ws)"

definition ws_close :: "nat \<Rightarrow> string \<Rightarrow> WebSocket \<Rightarrow> WebSocket" where
  "ws_close code reason ws =
     (if readyState ws = CLOSING \<or> readyState ws = CLOSED then ws
      else ws\<lparr>readyState := CLOSING, wsLog := wsLog ws @ [Close code reason]\<rparr>)"

text \<open>
  \<open>audioNodesRef.current\<close>: which of the two nodes is not null. \<open>AudioOp\<close> records the
  calls of \<open>disconnect\<close>.
\<close>

record AudioNodes =
  source :: bool
  processor :: bool

datatype AudioOp = DisconnectSource | DisconnectProcessor

record Session =
  session_id :: string

text \<open>The HTTP requests the component issues, with the fields of their bodies.\<close>

type_synonym DetectedDisease = "string \<times> string option \<times> rat \<times> Severity"

datatype Request =
    Analyze string string
  | SoapGenerate string string "DetectedDisease list" string
  | RecommendationsGenerate string string "DetectedDisease list"

text \<open>
  The state of the \<open>App\<close> component (part_001, lines 60-81) that the recording session
  uses, and the part of the browser it acts on: \<open>timeouts\<close> are the pending
  \<open>window.setTimeout\<close> entries (handle, delay in milliseconds, the text the callback
  captured), \<open>nextTimeoutId\<close> the next handle, \<open>requests\<close> the HTTP requests issued so
  far. \<open>debouncedCalls\<close> records the arguments of the calls of
  \<open>detectDiseasesDebounced\<close>. A timer handle is a positive integer, so the test
  \<open>if (diseaseDetectionTimerRef.current)\<close> is a test for \<open>null\<close>.
\<close>

record App =
  session :: "Session option"
  loading :: bool
  isRecording :: bool
  isConnected :: bool
  isLiveTranscribing :: bool
  liveTranscript :: string
  liveTranscriptHistory :: "string list"
  diseases :: "DiseaseHighlight list"
  wsRef :: "WebSocket option"
  audioNodesRef :: "AudioNodes option"
  diseaseDetectionTimerRef :: "nat option"
  lastDetectedTextRef :: string
  timeouts :: "(nat \<times> nat \<times> string) list"
  nextTimeoutId :: nat
  requests :: "Request list"
  audioOps :: "AudioOp list"
  debouncedCalls :: "string list"

definition initialApp :: App where
  "initialApp =
     \<lparr>session = None, loading = False, isRecording = False, isConnected = False,
      isLiveTranscribing = False, liveTranscript = [], liveTranscriptHistory = [],
      diseases = [], wsRef = None, audioNodesRef = None, diseaseDetectionTimerRef = None,
      lastDetectedTextRef = [], timeouts = [], nextTimeoutId = 1, requests = [],
      audioOps = [], debouncedCalls = []\<rparr>"

definition clearTimeout :: "nat \<Rightarrow> App \<Rightarrow> App" where
  "clearTimeout h st = st\<lparr>timeouts := filter (\<lambda>e. fst e \<noteq> h) (timeouts st)\<rparr>"

definition setTimeout :: "string \<Rightarrow> nat \<Rightarrow> App \<Rightarrow> nat \<times> App" where
  "setTimeout captured delay st =
     (let h = nextTimeoutId st
      in (h, st\<lparr>timeouts := timeouts st @ [(h, delay, captured)], nextTimeoutId := Suc h\<rparr>))"

section \<open>Incremental analysis scheduler\<close>

text \<open>
  \<open>detectDiseases\<close> (part_001, lines 471-511) up to its \<open>fetch\<close>: the request is issued
  unless there is no session.
\<close>

definition detectDiseases :: "string \<Rightarrow> App \<Rightarrow> App" where
  "detectDiseases t st =
     (case session st of
        None \<Rightarrow> st
      | Some s \<Rightarrow> st\<lparr>requests := requests st @ [Analyze (session_id s) t]\<rparr>)"

text \<open>
  The rest of \<open>detectDiseases\<close>, run when the \<open>fetch\<close> settles: a failed request and a
  response that is not ok change nothing; \<open>data.detections\<close> may be missing.
\<close>

datatype AnalyzeResult = FetchFailed | NotOk | Ok "DiseaseHighlight list option"

definition detectDiseasesSettled :: "AnalyzeResult \<Rightarrow> App \<Rightarrow> App" where
  "detectDiseasesSettled r st =
     (case r of
        FetchFailed \<Rightarrow> st
      | NotOk \<Rightarrow> st
      | Ok None \<Rightarrow> st
      | Ok (Some detections) \<Rightarrow>
          if length detections > 0 then st\<lparr>diseases := mergeDetections (diseases st) detections\<rparr>
          else st)"

text \<open>\<open>detectDiseasesDebounced\<close> (part_001, lines 442-460).\<close>

definition detectDiseasesDebounced :: "string \<Rightarrow> App \<Rightarrow> App" where
  "detectDiseasesDebounced t st0 =
     (let st = st0\<lparr>debouncedCalls := debouncedCalls st0 @ [t]\<rparr>;
          st1 = (case diseaseDetectionTimerRef st of
                   None \<Rightarrow> st
                 | Some h \<Rightarrow> clearTimeout h st)
      in if length t < 10 then st1
         else
           let similarity = calculateSimilarity (lastDetectedTextRef st1) t
           in if similarity > 85 / 100 then st1
              else
                (case setTimeout t 1500 st1 of
                   (h, st2) \<Rightarrow> st2\<lparr>diseaseDetectionTimerRef := Some h\<rparr>))"

text \<open>
  The callback given to \<open>setTimeout\<close> (part_001, lines 455-459), run by the browser for
  a pending entry, which it removes; a handle that is not pending runs nothing.
\<close>

definition timeoutFired :: "nat \<Rightarrow> App \<Rightarrow> App" where
  "timeoutFired h st =
     (case map_of (timeouts st) h of
        None \<Rightarrow> st
      | Some (delay, t) \<Rightarrow> detectDiseases t ((clearTimeout h st)\<lparr>lastDetectedTextRef := t\<rparr>))"

section \<open>Streaming transcript client\<close>

text \<open>
  The \<open>onmessage\<close> handler (part_001, lines 281-340). A frame that is not a string, and
  one that \<open>JSON.parse\<close> rejects, change nothing; so does an error raised while the text
  is formatted, which the handler's \<open>catch\<close> logs. The alert of the error branch and
  the console output are not modelled.
\<close>

definition onmessage :: "Frame \<Rightarrow> App \<Rightarrow> App" where
  "onmessage frame st =
     (case frame of
        BinaryFrame \<Rightarrow> st
      | UnparsableFrame \<Rightarrow> st
      | JsonFrame data \<Rightarrow>
          if truthy (msg_error data) then st
          else if truthy (msg_text data) then
            (let t = the (msg_text data) in
             case formatText t (msg_words data) of
               Inl e \<Rightarrow> st
             | Inr formattedText \<Rightarrow>
                 if msg_is_final data then
                   detectDiseases formattedText
                     (st\<lparr>liveTranscriptHistory := liveTranscriptHistory st @ [formattedText],
                         liveTranscript := []\<rparr>)
                 else
                   (let st1 = st\<lparr>liveTranscript := formattedText\<rparr>
                    in if length (splitSpace t) \<ge> 5 then detectDiseasesDebounced t st1 else st1))
          else st)"

text \<open>
  The \<open>onopen\<close>, \<open>onclose\<close> and \<open>onerror\<close> handlers (part_001, lines 275-279 and
  342-360), with the change of \<open>readyState\<close> that the browser makes before it calls
  the first two.
\<close>

definition setReadyState :: "ReadyState \<Rightarrow> App \<Rightarrow> App" where
  "setReadyState r st =
     (case wsRef st of
        None \<Rightarrow> st
      | Some ws \<Rightarrow> st\<lparr>wsRef := Some (ws\<lparr>readyState := r\<rparr>)\<rparr>)"

definition onopen :: "App \<Rightarrow> App" where
  "onopen st = (setReadyState OPEN st)\<lparr>isConnected := True, isRecording := True\<rparr>"

definition onclose :: "nat \<Rightarrow> App \<Rightarrow> App" where
  "onclose code st = (setReadyState CLOSED st)\<lparr>isConnected := False\<rparr>"

definition onerror :: "App \<Rightarrow> App" where
  "onerror st = st\<lparr>isConnected := False\<rparr>"

section \<open>Session orchestrator\<close>

definition detectedDiseases :: "DiseaseHighlight list \<Rightarrow> DetectedDisease list" where
  "detectedDiseases ds =
     map (\<lambda>d. (if truthy (disease_name d) then the (disease_name d) else disease d,
                icd10_code d, confidence d, severity d)) ds"

text \<open>
  \<open>generateSOAP\<close> and \<open>generateRecommendations\<close> (part_001, lines 513-615) up to their
  \<open>fetch\<close>. The \<open>soap_note\<close> field of the second request is not modelled.
\<close>

definition generateSOAP :: "App \<Rightarrow> App" where
  "generateSOAP st =
     (case session st of
        None \<Rightarrow> st
      | Some s \<Rightarrow>
          (let fullTranscript = join [CHR 0x0A, CHR 0x0A] (liveTranscriptHistory st)
           in if fullTranscript = [] \<or> length (trim fullTranscript) = 0 then st
              else st\<lparr>loading := True,
                      requests := requests st @
                        [SoapGenerate (session_id s) fullTranscript (detectedDiseases (diseases st)) ''general'']\<rparr>))"

definition generateRecommendations :: "App \<Rightarrow> App" where
  "generateRecommendations st =
     (case session st of
        None \<Rightarrow> st
      | Some s \<Rightarrow>
          (let fullTranscript = join [CHR 0x0A, CHR 0x0A] (liveTranscriptHistory st)
           in if fullTranscript = [] \<or> length (trim fullTranscript) = 0 then st
              else st\<lparr>loading := True,
                      requests := requests st @
                        [RecommendationsGenerate (session_id s) fullTranscript (detectedDiseases (diseases st))]\<rparr>))"

text \<open>
  \<open>stopRecording\<close> (part_001, lines 411-440). An error raised by \<open>send\<close> or \<open>close\<close>
  is caught and skips the rest of the \<open>try\<close> block.
\<close>

definition disconnectNodes :: "App \<Rightarrow> App" where
  "disconnectNodes st =
     (case audioNodesRef st of
        None \<Rightarrow> st
      | Some nodes \<Rightarrow>
          st\<lparr>audioOps := audioOps st
                 @ (if source nodes then [DisconnectSource] else [])
                 @ (if processor nodes then [DisconnectProcessor] else []),
             audioNodesRef := None\<rparr>)"

definition finalizeSocket :: "App \<Rightarrow> App" where
  "finalizeSocket st =
     (case wsRef st of
        None \<Rightarrow> st
      | Some ws \<Rightarrow>
          (let state = readyState ws in
           case (if state = OPEN then ws_send ''END_OF_STREAM'' ws else Inr ws) of
             Inl e \<Rightarrow> st
           | Inr ws1 \<Rightarrow>
               if state \<noteq> CLOSING \<and> state \<noteq> CLOSED
               then st\<lparr>wsRef := Some (ws_close 1000 ''Client stopped'' ws1)\<rparr>
               else st\<lparr>wsRef := Some ws1\<rparr>))"

definition stopRecording :: "App \<Rightarrow> App" where
  "stopRecording st =
     (let st1 = finalizeSocket (disconnectNodes st);
          st2 = st1\<lparr>isRecording := False, isConnected := False, isLiveTranscribing := False\<rparr>
      in if session st2 \<noteq> None then generateRecommendations (generateSOAP st2) else st2)"

section \<open>Events\<close>

text \<open>
  The events of a recording session, each handled to completion before the next: an
  inbound frame, a change of the connection, a timer that fires, an analysis request
  that settles, and the stop button.
\<close>

datatype Event =
    WsOpened
  | WsMessage Frame
  | WsClosed nat
  | WsError
  | TimeoutFired nat
  | AnalyzeSettled AnalyzeResult
  | StopRecording

fun handle :: "Event \<Rightarrow> App \<Rightarrow> App" where
  "handle WsOpened st = onopen st"
| "handle (WsMessage frame) st = onmessage frame st"
| "handle (WsClosed code) st = onclose code st"
| "handle WsError st = onerror st"
| "handle (TimeoutFired h) st = timeoutFired h st"
| "handle (AnalyzeSettled r) st = detectDiseasesSettled r st"
| "handle StopRecording st = stopRecording st"

definition run :: "Event list \<Rightarrow> App \<Rightarrow> App" where
  "run es st = foldl (\<lambda>s e. handle e s) st es"

text \<open>
  The debounce timer is a single slot: at most one timeout is pending, and its handle is
  the one stored in \<open>diseaseDetectionTimerRef\<close>.
\<close>

definition singleSlot :: "App \<Rightarrow> bool" where
  "singleSlot st \<longleftrightarrow>
     timeouts st = [] \<or>
     (length (timeouts st) = 1 \<and> diseaseDetectionTimerRef st = Some (fst (hd (timeouts st))))"

section \<open>Notions used to state the properties\<close>

text \<open>
  The whitespace-delimited tokens of a text as the specification counts them: the
  maximal runs of characters that are not whitespace.
\<close>

definition whitespaceTokens :: "string \<Rightarrow> string list" where
  "whitespaceTokens s = filter (\<lambda>w. w \<noteq> []) (splitWs s)"

text \<open>
  What an event adds to the transcript history: the formatted text of a final message
  that carries no error and a non-empty text, and nothing otherwise.
\<close>

fun appended :: "Event \<Rightarrow> string list" where
  "appended (WsMessage (JsonFrame data)) =
     (if \<not> truthy (msg_error data) \<and> truthy (msg_text data) \<and> msg_is_final data then
        (case formatText (the (msg_text data)) (msg_words data) of
           Inl e \<Rightarrow> []
         | Inr formattedText \<Rightarrow> [formattedText])
      else [])"
| "appended e = []"

text \<open>
  \<open>grouped seen g\<close>: the object \<open>g\<close> groups the words \<open>seen\<close> by speaker. Its keys are
  the speakers of the words, each once, and the value of a key is the list of that
  speaker's words in their order.
\<close>

definition grouped :: "TranscriptWord list \<Rightarrow> (string \<times> string list) list \<Rightarrow> bool" where
  "grouped seen g \<longleftrightarrow>
     distinct (map fst g) \<and> set (map fst g) = set (map speakerOf seen) \<and>
     list_all (\<lambda>(k, v). v = map word (filter (\<lambda>w. speakerOf w = k) seen)) g"

section \<open>Example data\<close>

definition detection :: "string \<Rightarrow> rat \<Rightarrow> DiseaseHighlight" where
  "detection name c =
     \<lparr>disease = name, disease_name = Some name, icd10_code = None, confidence = c,
      severity = Medium, position = (0, 0), supporting_symptoms = None\<rparr>"

text \<open>
  A session that is recording: the socket is open and both audio nodes are connected.
\<close>

definition recordingApp :: App where
  "recordingApp =
     initialApp\<lparr>session := Some \<lparr>session_id = ''s-1''\<rparr>,
                isRecording := True, isConnected := True, isLiveTranscribing := True,
                wsRef := Some \<lparr>readyState = OPEN, wsLog = []\<rparr>,
                audioNodesRef := Some \<lparr>source = True, processor = True\<rparr>\<rparr>"

section \<open>The similarity gate: algebraic laws\<close>

lemma splitWs_nonempty: "splitWs s \<noteq> []"
  by (induction s rule: splitWs.induct) (simp_all split: list.split)

lemma calculateSimilarity_jaccard:
  assumes "a \<noteq> []" and "b \<noteq> []"
  shows "calculateSimilarity a b =
     of_nat (card (set (splitWs (toLowerCase a)) \<inter> set (splitWs (toLowerCase b))))
     / of_nat (card (set (splitWs (toLowerCase a)) \<union> set (splitWs (toLowerCase b))))"
proof -
  let ?A = "set (splitWs (toLowerCase a))" and ?B = "set (splitWs (toLowerCase b))"
  have f: "Set.filter (\<lambda>w. w \<in> ?B) ?A = ?A \<inter> ?B" by auto
  have "?A \<noteq> {}" using splitWs_nonempty by simp
  then have "card (?A \<union> ?B) > 0" by (simp add: card_gt_0_iff)
  then show ?thesis using assms
    unfolding calculateSimilarity_def Let_def f by simp
qed

lemma calculateSimilarity_self:
  assumes "x \<noteq> []"
  shows "calculateSimilarity x x = 1"
proof -
  have "set (splitWs (toLowerCase x)) \<noteq> {}" using splitWs_nonempty by simp
  then have "card (set (splitWs (toLowerCase x))) > 0" by (simp add: card_gt_0_iff)
  then show ?thesis using assms by (simp add: calculateSimilarity_jaccard splitWs_nonempty)
qed

lemma calculateSimilarity_commute: "calculateSimilarity a b = calculateSimilarity b a"
proof (cases "a = [] \<or> b = []")
  case True
  then show ?thesis by (auto simp: calculateSimilarity_def)
next
  case False
  then show ?thesis by (simp add: calculateSimilarity_jaccard Int_commute Un_commute)
qed

text \<open>
  The pieces of \<open>split(/\s+/)\<close> and the whitespace-delimited tokens: the pieces are the
  tokens, and the empty string besides when the text is empty or begins or ends with
  whitespace. Lower-casing keeps whitespace where it is.
\<close>

lemma isWhitespace_toLowerChar: "isWhitespace (toLowerChar c) = isWhitespace c"
proof -
  have "(of_char c :: nat) < 256" by simp
  then show ?thesis
    by (auto simp: isWhitespace_def toLowerChar_def Let_def)
qed

lemma toLowerCase_Nil_iff: "toLowerCase s = [] \<longleftrightarrow> s = []"
  by (simp add: toLowerCase_def)

lemma hd_toLowerCase: "s \<noteq> [] \<Longrightarrow> hd (toLowerCase s) = toLowerChar (hd s)"
  by (simp add: toLowerCase_def hd_map)

lemma last_toLowerCase: "s \<noteq> [] \<Longrightarrow> last (toLowerCase s) = toLowerChar (last s)"
  by (simp add: toLowerCase_def last_map)

lemma hd_splitWs: "hd (splitWs s) = [] \<longleftrightarrow> s = [] \<or> isWhitespace (hd s)"
  by (induction s rule: splitWs.induct) (simp_all split: list.split)

lemma tl_splitWs: "[] \<in> set (tl (splitWs s)) \<longleftrightarrow> s \<noteq> [] \<and> isWhitespace (last s)"
proof (induction s rule: splitWs.induct)
  case 1
  show ?case by simp
next
  case (2 c)
  show ?case by simp
next
  case (3 c d cs)
  obtain w ws where sp: "splitWs (d # cs) = w # ws"
    using splitWs_nonempty [of "d # cs"] by (cases "splitWs (d # cs)") simp_all
  have hw: "w = [] \<longleftrightarrow> isWhitespace d"
    using hd_splitWs [of "d # cs"] by (simp add: sp)
  have "[] \<in> set (tl (splitWs (d # cs))) \<longleftrightarrow> d # cs \<noteq> [] \<and> isWhitespace (last (d # cs))"
    using 3 by (cases "isWhitespace c"; cases "isWhitespace d") blast+
  then have ih: "[] \<in> set ws \<longleftrightarrow> isWhitespace (last (d # cs))"
    by (simp add: sp)
  have "[] \<in> set (tl (splitWs (c # d # cs))) \<longleftrightarrow> isWhitespace (last (d # cs))"
    using hw ih by (auto simp: sp)
  then show ?case by simp
qed

lemma empty_piece_iff:
  "[] \<in> set (splitWs s) \<longleftrightarrow> s = [] \<or> isWhitespace (hd s) \<or> isWhitespace (last s)"
proof -
  obtain w ws where sp: "splitWs s = w # ws"
    using splitWs_nonempty [of s] by (cases "splitWs s") simp_all
  have "[] \<in> set (splitWs s) \<longleftrightarrow> hd (splitWs s) = [] \<or> [] \<in> set (tl (splitWs s))"
    by (auto simp: sp)
  then show ?thesis
    unfolding hd_splitWs tl_splitWs by auto
qed

lemma pieces_tokens:
  "set (splitWs s) =
     set (whitespaceTokens s) \<union>
       (if s = [] \<or> isWhitespace (hd s) \<or> isWhitespace (last s) then {[]} else {})"
  using empty_piece_iff [of s] by (auto simp: whitespaceTokens_def)

lemma pieces_toLowerCase:
  "set (splitWs (toLowerCase s)) =
     set (whitespaceTokens (toLowerCase s)) \<union>
       (if s = [] \<or> isWhitespace (hd s) \<or> isWhitespace (last s) then {[]} else {})"
proof (cases "s = []")
  case True
  then show ?thesis using pieces_tokens [of "toLowerCase s"] by (simp add: toLowerCase_def)
next
  case False
  then show ?thesis
    using pieces_tokens [of "toLowerCase s"]
    by (simp add: toLowerCase_Nil_iff hd_toLowerCase last_toLowerCase isWhitespace_toLowerChar)
qed

lemma calculateSimilarity_tokens:
  assumes "a \<noteq> []" and "\<not> isWhitespace (hd a)" and "\<not> isWhitespace (last a)"
    and "b \<noteq> []" and "\<not> isWhitespace (hd b)" and "\<not> isWhitespace (last b)"
  shows "calculateSimilarity a b =
     of_nat (card (set (whitespaceTokens (toLowerCase a)) \<inter> set (whitespaceTokens (toLowerCase b))))
     / of_nat (card (set (whitespaceTokens (toLowerCase a)) \<union> set (whitespaceTokens (toLowerCase b))))"
proof -
  have "set (splitWs (toLowerCase a)) = set (whitespaceTokens (toLowerCase a))"
    and "set (splitWs (toLowerCase b)) = set (whitespaceTokens (toLowerCase b))"
    using assms by (simp_all add: pieces_toLowerCase)
  then show ?thesis
    using assms(1,4) by (simp add: calculateSimilarity_jaccard)
qed

text \<open>
  C7, as the code has it. The similarity of a non-empty string with itself is 1; the
  similarity with the empty string is 0 on either side; the similarity is symmetric. For
  two non-empty strings it is the Jaccard index of the two sets of lower-cased pieces
  that \<open>split(/\s+/)\<close> yields: the whitespace-delimited tokens of the text, and the
  empty string besides when the text begins or ends with whitespace. For two non-empty
  strings that neither begin nor end with whitespace it is the Jaccard index of the two
  sets of lower-cased tokens.
\<close>

theorem calculateSimilarity_laws:
  "(x \<noteq> [] \<longrightarrow> calculateSimilarity x x = 1)
   \<and> calculateSimilarity [] y = 0
   \<and> calculateSimilarity y [] = 0
   \<and> calculateSimilarity a b = calculateSimilarity b a
   \<and> (a \<noteq> [] \<and> b \<noteq> [] \<longrightarrow>
        calculateSimilarity a b =
          of_nat (card (set (splitWs (toLowerCase a)) \<inter> set (splitWs (toLowerCase b))))
          / of_nat (card (set (splitWs (toLowerCase a)) \<union> set (splitWs (toLowerCase b)))))
   \<and> set (splitWs (toLowerCase a)) =
        set (whitespaceTokens (toLowerCase a)) \<union>
          (if a = [] \<or> isWhitespace (hd a) \<or> isWhitespace (last a) then {[]} else {})
   \<and> (a \<noteq> [] \<and> \<not> isWhitespace (hd a) \<and> \<not> isWhitespace (last a)
        \<and> b \<noteq> [] \<and> \<not> isWhitespace (hd b) \<and> \<not> isWhitespace (last b) \<longrightarrow>
        calculateSimilarity a b =
          of_nat (card (set (whitespaceTokens (toLowerCase a)) \<inter> set (whitespaceTokens (toLowerCase b))))
          / of_nat (card (set (whitespaceTokens (toLowerCase a)) \<union> set (whitespaceTokens (toLowerCase b)))))"
proof -
  have "calculateSimilarity [] y = 0" and "calculateSimilarity y [] = 0"
    by (simp_all add: calculateSimilarity_def)
  then show ?thesis
    using calculateSimilarity_self [of x] calculateSimilarity_commute [of a b]
      calculateSimilarity_jaccard [of a b] pieces_toLowerCase [of a]
      calculateSimilarity_tokens [of a b]
    by blast
qed

theorem calculateSimilarity_laws_witness:
  "calculateSimilarity ''Chest pain'' ''Chest pain'' = 1
   \<and> calculateSimilarity [] ''cough'' = 0
   \<and> calculateSimilarity ''cough'' [] = 0
   \<and> calculateSimilarity ''chest pain today'' ''Chest PAIN now''
       = calculateSimilarity ''Chest PAIN now'' ''chest pain today''
   \<and> calculateSimilarity ''chest pain today'' ''Chest PAIN now'' = 1 / 2
   \<and> calculateSimilarity (''Chest'' @ [CHR 0x09] @ ''pain'' @ [CHR 0x0A, CHR 0xA0] @ ''Today'')
         ''today chest  pain'' = 1
   \<and> set (splitWs (toLowerCase '' Cough'')) = {[], ''cough''}"
proof -
  let ?a = "''chest pain today''" and ?b = "''Chest PAIN now''"
  let ?c = "''Chest'' @ [CHR 0x09] @ ''pain'' @ [CHR 0x0A, CHR 0xA0] @ ''Today''"
  let ?d = "''today chest  pain''"
  have j: "of_nat (card (set (whitespaceTokens (toLowerCase ?a)) \<inter> set (whitespaceTokens (toLowerCase ?b))))
           / of_nat (card (set (whitespaceTokens (toLowerCase ?a)) \<union> set (whitespaceTokens (toLowerCase ?b))))
           = (1 / 2 :: rat)"
    by code_simp
  have k: "of_nat (card (set (whitespaceTokens (toLowerCase ?c)) \<inter> set (whitespaceTokens (toLowerCase ?d))))
           / of_nat (card (set (whitespaceTokens (toLowerCase ?c)) \<union> set (whitespaceTokens (toLowerCase ?d))))
           = (1 :: rat)"
    by code_simp
  have w: "\<not> isWhitespace CHR ''c''" "\<not> isWhitespace CHR ''C''" "\<not> isWhitespace CHR ''y''"
    "\<not> isWhitespace CHR ''w''" "\<not> isWhitespace CHR ''t''" "\<not> isWhitespace CHR ''n''"
    "isWhitespace CHR '' ''" "\<not> isWhitespace CHR ''h''"
    by (simp_all add: isWhitespace_def)
  have t: "set (whitespaceTokens (toLowerCase '' Cough'')) = {''cough''}"
    by code_simp
  note l1 = calculateSimilarity_laws [of "''Chest pain''" "''cough''" ?a ?b]
  note l2 = calculateSimilarity_laws [of "[]" "[]" ?c ?d]
  note l3 = calculateSimilarity_laws [of "[]" "[]" "'' Cough''" "[]"]
  have p: "?c \<noteq> [] \<and> \<not> isWhitespace (hd ?c) \<and> \<not> isWhitespace (last ?c)
      \<and> ?d \<noteq> [] \<and> \<not> isWhitespace (hd ?d) \<and> \<not> isWhitespace (last ?d)"
    by (simp add: isWhitespace_def)
  from l1 have 1: "calculateSimilarity ''Chest pain'' ''Chest pain'' = 1"
    and 2: "calculateSimilarity [] ''cough'' = 0" and 3: "calculateSimilarity ''cough'' [] = 0"
    and 4: "calculateSimilarity ?a ?b = calculateSimilarity ?b ?a"
    by simp_all
  from l1 w have 5: "calculateSimilarity ?a ?b = 1 / 2"
    by (simp add: j)
  from l2 p have "calculateSimilarity ?c ?d =
      of_nat (card (set (whitespaceTokens (toLowerCase ?c)) \<inter> set (whitespaceTokens (toLowerCase ?d))))
      / of_nat (card (set (whitespaceTokens (toLowerCase ?c)) \<union> set (whitespaceTokens (toLowerCase ?d))))"
    by blast
  then have 6: "calculateSimilarity ?c ?d = 1"
    by (simp only: k)
  from l3 w have 7: "set (splitWs (toLowerCase '' Cough'')) = {[], ''cough''}"
    by (simp add: t insert_commute)
  from 1 2 3 4 5 6 7 show ?thesis by blast
qed

text \<open>
  Where the pieces are not the tokens: a leading blank leaves the two token sets equal,
  with Jaccard index 1, and halves the similarity; a trailing blank brings the similarity
  of two texts of the same five words down to 5/6, below the threshold of the gate.
\<close>

theorem calculateSimilarity_leading_blank_counterexample:
  "set (whitespaceTokens (toLowerCase '' a'')) = set (whitespaceTokens (toLowerCase ''a''))
   \<and> of_nat (card (set (whitespaceTokens (toLowerCase '' a'')) \<inter> set (whitespaceTokens (toLowerCase ''a''))))
       / of_nat (card (set (whitespaceTokens (toLowerCase '' a'')) \<union> set (whitespaceTokens (toLowerCase ''a''))))
       = (1 :: rat)
   \<and> calculateSimilarity '' a'' ''a'' = 1 / 2
   \<and> set (whitespaceTokens (toLowerCase ''one two three four five ''))
       = set (whitespaceTokens (toLowerCase ''one two three four five''))
   \<and> calculateSimilarity ''one two three four five '' ''one two three four five'' = 5 / 6
   \<and> \<not> calculateSimilarity ''one two three four five '' ''one two three four five'' > 85 / 100"
  by code_simp

section \<open>The disease aggregator\<close>

lemma mergeDetections_names:
  "set (map disease_name (mergeDetections S L)) = set (map disease_name S) \<union> set (map disease_name L)"
  by (auto simp: mergeDetections_def)

lemma mergeDetections_idem: "mergeDetections (mergeDetections S L) L = mergeDetections S L"
proof -
  have "filter (\<lambda>d. disease_name d \<notin> set (map disease_name (mergeDetections S L))) L = []"
    unfolding mergeDetections_names by (simp add: filter_empty_conv)
  then show ?thesis
    by (simp add: mergeDetections_def [of "mergeDetections S L" L] Let_def)
qed

lemma distinct_append_survivors:
  assumes "distinct (map f S)" and "distinct (map f L)"
  shows "distinct (map f (S @ filter (\<lambda>d. f d \<notin> set (map f S)) L))"
proof -
  have "f x \<noteq> f y" if "x \<in> set S" and "f y \<notin> f ` set S" for x y
  proof
    assume "f x = f y"
    moreover have "f x \<in> f ` set S" using that(1) by (rule imageI)
    ultimately show False using that(2) by simp
  qed
  then have "set (map f S) \<inter> set (map f (filter (\<lambda>d. f d \<notin> set (map f S)) L)) = {}"
    by auto
  with assms show ?thesis
    by (simp add: distinct_map_filter)
qed

text \<open>
  What the merge does keep: names stay distinct when the incoming list has no two
  entries of one name, and the stored entries are a prefix of the result.
\<close>

lemma mergeDetections_distinct:
  "distinct (map disease_name S) \<Longrightarrow> distinct (map disease_name L) \<Longrightarrow>
   distinct (map disease_name (mergeDetections S L))"
  unfolding mergeDetections_def Let_def by (rule distinct_append_survivors)

lemma mergeDetections_prefix: "take (length S) (mergeDetections S L) = S"
  by (simp add: mergeDetections_def)

text \<open>
  C6. Aggregator idempotence: merging the same list of detections a second time changes
  nothing, for the merge itself and for the list stored once the response of an
  analysis request has been handled.
\<close>

theorem mergeDetections_idempotent:
  "mergeDetections (mergeDetections S L) L = mergeDetections S L
   \<and> diseases (detectDiseasesSettled r (detectDiseasesSettled r st))
       = diseases (detectDiseasesSettled r st)"
proof
  show "mergeDetections (mergeDetections S L) L = mergeDetections S L"
    by (rule mergeDetections_idem)
  show "diseases (detectDiseasesSettled r (detectDiseasesSettled r st))
          = diseases (detectDiseasesSettled r st)"
    by (cases r) (simp_all add: detectDiseasesSettled_def mergeDetections_idem split: option.split)
qed

theorem mergeDetections_idempotent_witness:
  "mergeDetections
     (mergeDetections [detection ''Influenza'' (7 / 10)]
        [detection ''Influenza'' (1 / 2), detection ''Asthma'' (4 / 5)])
     [detection ''Influenza'' (1 / 2), detection ''Asthma'' (4 / 5)]
   = [detection ''Influenza'' (7 / 10), detection ''Asthma'' (4 / 5)]"
proof -
  have "mergeDetections [detection ''Influenza'' (7 / 10)]
          [detection ''Influenza'' (1 / 2), detection ''Asthma'' (4 / 5)]
        = [detection ''Influenza'' (7 / 10), detection ''Asthma'' (4 / 5)]"
    by (simp add: mergeDetections_def detection_def)
  then show ?thesis
    using mergeDetections_idempotent
      [of "[detection ''Influenza'' (7 / 10)]"
          "[detection ''Influenza'' (1 / 2), detection ''Asthma'' (4 / 5)]"]
    by simp
qed

text \<open>
  C3. Two detections of one name in a single response, merged into a list that does not
  hold that name, are both stored: the filter looks at the stored names only.
\<close>

theorem mergeDetections_keeps_batch_duplicates:
  "mergeDetections [] [detection ''Pneumonia'' (9 / 10), detection ''Pneumonia'' (6 / 10)]
     = [detection ''Pneumonia'' (9 / 10), detection ''Pneumonia'' (6 / 10)]
   \<and> \<not> distinct (map disease_name
          (mergeDetections [] [detection ''Pneumonia'' (9 / 10), detection ''Pneumonia'' (6 / 10)]))
   \<and> diseases (detectDiseasesSettled
          (Ok (Some [detection ''Pneumonia'' (9 / 10), detection ''Pneumonia'' (6 / 10)])) initialApp)
     = [detection ''Pneumonia'' (9 / 10), detection ''Pneumonia'' (6 / 10)]"
  by (simp add: mergeDetections_def detection_def detectDiseasesSettled_def initialApp_def)

section \<open>Stopping a recording\<close>

lemma generateSOAP_frame:
  "wsRef (generateSOAP st) = wsRef st" "isRecording (generateSOAP st) = isRecording st"
  "isConnected (generateSOAP st) = isConnected st" "isLiveTranscribing (generateSOAP st) = isLiveTranscribing st"
  "audioNodesRef (generateSOAP st) = audioNodesRef st" "audioOps (generateSOAP st) = audioOps st"
  "session (generateSOAP st) = session st" "liveTranscriptHistory (generateSOAP st) = liveTranscriptHistory st"
  "lastDetectedTextRef (generateSOAP st) = lastDetectedTextRef st" "timeouts (generateSOAP st) = timeouts st"
  "diseaseDetectionTimerRef (generateSOAP st) = diseaseDetectionTimerRef st"
  by (simp_all add: generateSOAP_def Let_def split: option.split)

lemma generateRecommendations_frame:
  "wsRef (generateRecommendations st) = wsRef st" "isRecording (generateRecommendations st) = isRecording st"
  "isConnected (generateRecommendations st) = isConnected st" "isLiveTranscribing (generateRecommendations st) = isLiveTranscribing st"
  "audioNodesRef (generateRecommendations st) = audioNodesRef st" "audioOps (generateRecommendations st) = audioOps st"
  "session (generateRecommendations st) = session st" "liveTranscriptHistory (generateRecommendations st) = liveTranscriptHistory st"
  "lastDetectedTextRef (generateRecommendations st) = lastDetectedTextRef st" "timeouts (generateRecommendations st) = timeouts st"
  "diseaseDetectionTimerRef (generateRecommendations st) = diseaseDetectionTimerRef st"
  by (simp_all add: generateRecommendations_def Let_def split: option.split)

lemma generate_empty:
  "liveTranscriptHistory st = [] \<Longrightarrow> generateSOAP st = st"
  "liveTranscriptHistory st = [] \<Longrightarrow> generateRecommendations st = st"
  by (simp_all add: generateSOAP_def generateRecommendations_def split: option.split)

lemma disconnectNodes_frame:
  "wsRef (disconnectNodes st) = wsRef st" "audioNodesRef (disconnectNodes st) = None"
  "session (disconnectNodes st) = session st" "liveTranscriptHistory (disconnectNodes st) = liveTranscriptHistory st"
  "requests (disconnectNodes st) = requests st"
  "lastDetectedTextRef (disconnectNodes st) = lastDetectedTextRef st" "timeouts (disconnectNodes st) = timeouts st"
  "diseaseDetectionTimerRef (disconnectNodes st) = diseaseDetectionTimerRef st"
  by (simp_all add: disconnectNodes_def split: option.split)

lemma finalizeSocket_frame:
  "audioNodesRef (finalizeSocket st) = audioNodesRef st" "audioOps (finalizeSocket st) = audioOps st"
  "session (finalizeSocket st) = session st" "liveTranscriptHistory (finalizeSocket st) = liveTranscriptHistory st"
  "requests (finalizeSocket st) = requests st"
  "lastDetectedTextRef (finalizeSocket st) = lastDetectedTextRef st" "timeouts (finalizeSocket st) = timeouts st"
  "diseaseDetectionTimerRef (finalizeSocket st) = diseaseDetectionTimerRef st"
  by (simp_all add: finalizeSocket_def Let_def ws_send_def split: option.split sum.split ReadyState.split)

lemma finalizeSocket_ws:
  "wsRef st = None \<Longrightarrow> wsRef (finalizeSocket st) = None"
  "wsRef st = Some ws \<Longrightarrow> readyState ws = OPEN \<Longrightarrow>
     wsRef (finalizeSocket st) = Some (ws\<lparr>readyState := CLOSING, wsLog := wsLog ws @ [Send ''END_OF_STREAM'', Close 1000 ''Client stopped'']\<rparr>)"
  "wsRef st = Some ws \<Longrightarrow> readyState ws = CONNECTING \<Longrightarrow>
     wsRef (finalizeSocket st) = Some (ws\<lparr>readyState := CLOSING, wsLog := wsLog ws @ [Close 1000 ''Client stopped'']\<rparr>)"
  "wsRef st = Some ws \<Longrightarrow> readyState ws = CLOSING \<or> readyState ws = CLOSED \<Longrightarrow>
     wsRef (finalizeSocket st) = Some ws"
  by (auto simp: finalizeSocket_def Let_def ws_send_def ws_close_def)

lemma stopRecording_wsRef: "wsRef (stopRecording st) = wsRef (finalizeSocket (disconnectNodes st))"
  by (simp add: stopRecording_def Let_def generateSOAP_frame generateRecommendations_frame)

text \<open>
  C9. When \<open>stopRecording\<close> runs on an open socket, the socket receives the text
  \<open>END_OF_STREAM\<close> and then the close request with code 1000, in that order; a socket
  that is closing or closed is left as it is, with no further close request.
\<close>

theorem stopRecording_socket:
  assumes "wsRef st = Some ws"
  shows "(readyState ws = OPEN \<longrightarrow>
            wsRef (stopRecording st) =
              Some (ws\<lparr>readyState := CLOSING,
                       wsLog := wsLog ws @ [Send ''END_OF_STREAM'', Close 1000 ''Client stopped'']\<rparr>))
       \<and> (readyState ws = CLOSING \<or> readyState ws = CLOSED \<longrightarrow> wsRef (stopRecording st) = Some ws)"
  using assms finalizeSocket_ws(2,4) [of "disconnectNodes st" ws]
  by (simp add: stopRecording_wsRef disconnectNodes_frame)

theorem stopRecording_socket_witness:
  "wsRef (stopRecording recordingApp) =
     Some \<lparr>readyState = CLOSING, wsLog = [Send ''END_OF_STREAM'', Close 1000 ''Client stopped'']\<rparr>
   \<and> wsRef (stopRecording (recordingApp\<lparr>wsRef := Some \<lparr>readyState = CLOSED, wsLog = []\<rparr>\<rparr>)) =
     Some \<lparr>readyState = CLOSED, wsLog = []\<rparr>"
  using stopRecording_socket [of recordingApp "\<lparr>readyState = OPEN, wsLog = []\<rparr>"]
    stopRecording_socket [of "recordingApp\<lparr>wsRef := Some \<lparr>readyState = CLOSED, wsLog = []\<rparr>\<rparr>"
      "\<lparr>readyState = CLOSED, wsLog = []\<rparr>"]
  by (simp add: recordingApp_def initialApp_def)

text \<open>
  C8. When \<open>stopRecording\<close> runs while the transcript history is empty, the recording,
  connection and live-transcription flags are cleared, the audio nodes are disconnected
  and released, the socket (if any) is closing or closed, and no HTTP request is issued:
  neither the SOAP generator nor the recommendation service is called.
\<close>

theorem stopRecording_empty_history:
  assumes "liveTranscriptHistory st = []"
  shows "isRecording (stopRecording st) = False
       \<and> isConnected (stopRecording st) = False
       \<and> isLiveTranscribing (stopRecording st) = False
       \<and> audioNodesRef (stopRecording st) = None
       \<and> (case wsRef (stopRecording st) of
             None \<Rightarrow> wsRef st = None
           | Some ws' \<Rightarrow> readyState ws' = CLOSING \<or> readyState ws' = CLOSED)
       \<and> audioOps (stopRecording st) =
           audioOps st @
             (case audioNodesRef st of
                None \<Rightarrow> []
              | Some nodes \<Rightarrow>
                  (if source nodes then [DisconnectSource] else [])
                  @ (if processor nodes then [DisconnectProcessor] else []))
       \<and> requests (stopRecording st) = requests st"
proof -
  let ?st1 = "finalizeSocket (disconnectNodes st)"
  let ?st2 = "?st1\<lparr>isRecording := False, isConnected := False, isLiveTranscribing := False\<rparr>"
  have h: "liveTranscriptHistory ?st2 = []"
    using assms by (simp add: finalizeSocket_frame disconnectNodes_frame)
  have eq: "stopRecording st = ?st2"
    using generate_empty [OF h] generate_empty(2) [OF h]
    by (simp add: stopRecording_def Let_def)
  have ws: "case wsRef ?st1 of None \<Rightarrow> wsRef st = None
            | Some ws' \<Rightarrow> readyState ws' = CLOSING \<or> readyState ws' = CLOSED"
  proof (cases "wsRef st")
    case None
    then show ?thesis using finalizeSocket_ws(1) [of "disconnectNodes st"]
      by (simp add: disconnectNodes_frame)
  next
    case (Some ws)
    then have w: "wsRef (disconnectNodes st) = Some ws" by (simp add: disconnectNodes_frame)
    show ?thesis
      using finalizeSocket_ws(2) [OF w] finalizeSocket_ws(3) [OF w] finalizeSocket_ws(4) [OF w]
      by (cases "readyState ws") simp_all
  qed
  have ops: "audioOps (disconnectNodes st) =
      audioOps st @
        (case audioNodesRef st of
           None \<Rightarrow> []
         | Some nodes \<Rightarrow>
             (if source nodes then [DisconnectSource] else [])
             @ (if processor nodes then [DisconnectProcessor] else []))"
    by (simp add: disconnectNodes_def split: option.split)
  show ?thesis unfolding eq
    using ws ops by (simp add: finalizeSocket_frame disconnectNodes_frame)
qed

theorem stopRecording_empty_history_witness:
  "liveTranscriptHistory recordingApp = []
   \<and> isRecording (stopRecording recordingApp) = False
   \<and> isConnected (stopRecording recordingApp) = False
   \<and> isLiveTranscribing (stopRecording recordingApp) = False
   \<and> audioNodesRef (stopRecording recordingApp) = None
   \<and> audioOps (stopRecording recordingApp) = [DisconnectSource, DisconnectProcessor]
   \<and> requests (stopRecording recordingApp) = []"
proof -
  have h: "liveTranscriptHistory recordingApp = []"
    by (simp add: recordingApp_def initialApp_def)
  show ?thesis
    using h stopRecording_empty_history [OF h]
    by (simp add: recordingApp_def initialApp_def)
qed

section \<open>The scheduler and the message handler: frame conditions\<close>

lemma clearTimeout_frame:
  "lastDetectedTextRef (clearTimeout h st) = lastDetectedTextRef st"
  "requests (clearTimeout h st) = requests st"
  "session (clearTimeout h st) = session st"
  "liveTranscript (clearTimeout h st) = liveTranscript st"
  "liveTranscriptHistory (clearTimeout h st) = liveTranscriptHistory st"
  "debouncedCalls (clearTimeout h st) = debouncedCalls st"
  "diseaseDetectionTimerRef (clearTimeout h st) = diseaseDetectionTimerRef st"
  "nextTimeoutId (clearTimeout h st) = nextTimeoutId st"
  "timeouts (clearTimeout h st) = filter (\<lambda>e. fst e \<noteq> h) (timeouts st)"
  by (simp_all add: clearTimeout_def)

lemma detectDiseases_frame:
  "lastDetectedTextRef (detectDiseases t st) = lastDetectedTextRef st"
  "timeouts (detectDiseases t st) = timeouts st"
  "session (detectDiseases t st) = session st"
  "liveTranscript (detectDiseases t st) = liveTranscript st"
  "liveTranscriptHistory (detectDiseases t st) = liveTranscriptHistory st"
  "debouncedCalls (detectDiseases t st) = debouncedCalls st"
  "diseaseDetectionTimerRef (detectDiseases t st) = diseaseDetectionTimerRef st"
  "nextTimeoutId (detectDiseases t st) = nextTimeoutId st"
  by (simp_all add: detectDiseases_def split: option.split)

lemma detectDiseases_requests:
  "requests (detectDiseases t st) =
     requests st @ (case session st of None \<Rightarrow> [] | Some s \<Rightarrow> [Analyze (session_id s) t])"
  by (simp add: detectDiseases_def split: option.split)

lemma detectDiseasesDebounced_frame:
  "lastDetectedTextRef (detectDiseasesDebounced t st) = lastDetectedTextRef st"
  "requests (detectDiseasesDebounced t st) = requests st"
  "session (detectDiseasesDebounced t st) = session st"
  "liveTranscript (detectDiseasesDebounced t st) = liveTranscript st"
  "liveTranscriptHistory (detectDiseasesDebounced t st) = liveTranscriptHistory st"
  "debouncedCalls (detectDiseasesDebounced t st) = debouncedCalls st @ [t]"
  by (simp_all add: detectDiseasesDebounced_def setTimeout_def clearTimeout_def Let_def split: option.split)

lemma singleSlot_cases:
  assumes "singleSlot st"
  obtains "timeouts st = []"
  | h d t where "timeouts st = [(h, d, t)]" and "diseaseDetectionTimerRef st = Some h"
proof (cases "timeouts st")
  case Nil
  then show ?thesis using that(1) by simp
next
  case (Cons e es)
  with assms have "es = []" and r: "diseaseDetectionTimerRef st = Some (fst e)"
    by (simp_all add: singleSlot_def)
  with Cons have "timeouts st = [(fst e, fst (snd e), snd (snd e))]" by simp
  then show ?thesis using that(2) r by blast
qed

lemma singleSlot_cleared:
  assumes "singleSlot st"
  shows "timeouts (case diseaseDetectionTimerRef st of None \<Rightarrow> st | Some h \<Rightarrow> clearTimeout h st) = []"
  using assms
proof (cases rule: singleSlot_cases)
  case 1
  then show ?thesis by (simp add: clearTimeout_def split: option.split)
next
  case (2 h d t)
  then show ?thesis by (simp add: clearTimeout_def)
qed

lemma detectDiseasesDebounced_timeouts:
  assumes "singleSlot st"
  shows "timeouts (detectDiseasesDebounced t st) =
           (if length t < 10 \<or> calculateSimilarity (lastDetectedTextRef st) t > 85 / 100 then []
            else [(nextTimeoutId st, 1500, t)])"
    and "\<not> (length t < 10 \<or> calculateSimilarity (lastDetectedTextRef st) t > 85 / 100) \<Longrightarrow>
           diseaseDetectionTimerRef (detectDiseasesDebounced t st) = Some (nextTimeoutId st)"
proof -
  let ?st = "st\<lparr>debouncedCalls := debouncedCalls st @ [t]\<rparr>"
  let ?st1 = "case diseaseDetectionTimerRef ?st of None \<Rightarrow> ?st | Some h \<Rightarrow> clearTimeout h ?st"
  have "singleSlot ?st" using assms by (simp add: singleSlot_def)
  then have c: "timeouts ?st1 = []" by (rule singleSlot_cleared)
  have l: "lastDetectedTextRef ?st1 = lastDetectedTextRef st" and n: "nextTimeoutId ?st1 = nextTimeoutId st"
    by (simp_all add: clearTimeout_def split: option.split)
  show "timeouts (detectDiseasesDebounced t st) =
           (if length t < 10 \<or> calculateSimilarity (lastDetectedTextRef st) t > 85 / 100 then []
            else [(nextTimeoutId st, 1500, t)])"
    unfolding detectDiseasesDebounced_def Let_def
    using c l n by (simp add: setTimeout_def Let_def)
  show "diseaseDetectionTimerRef (detectDiseasesDebounced t st) = Some (nextTimeoutId st)"
    if "\<not> (length t < 10 \<or> calculateSimilarity (lastDetectedTextRef st) t > 85 / 100)"
    unfolding detectDiseasesDebounced_def Let_def
    using that l n by (simp add: setTimeout_def Let_def)
qed

lemma timeoutFired_pending:
  assumes "timeouts st = [(h, d, t)]"
  shows "lastDetectedTextRef (timeoutFired h st) = t"
    and "timeouts (timeoutFired h st) = []"
    and "requests (timeoutFired h st) =
           requests st @ (case session st of None \<Rightarrow> [] | Some s \<Rightarrow> [Analyze (session_id s) t])"
  using assms
  by (simp_all add: timeoutFired_def detectDiseases_frame detectDiseases_requests clearTimeout_frame)

lemma timeoutFired_lastDetectedTextRef:
  "lastDetectedTextRef (timeoutFired h st) =
     (case map_of (timeouts st) h of None \<Rightarrow> lastDetectedTextRef st | Some (d, t) \<Rightarrow> t)"
  by (simp add: timeoutFired_def detectDiseases_frame split: option.split)

lemma onmessage_text:
  assumes "\<not> truthy (msg_error data)" and "msg_text data = Some t" and "t \<noteq> []"
    and "formatText t (msg_words data) = Inr f"
  shows "onmessage (JsonFrame data) st =
     (if msg_is_final data then
        detectDiseases f (st\<lparr>liveTranscriptHistory := liveTranscriptHistory st @ [f], liveTranscript := []\<rparr>)
      else if 5 \<le> length (splitSpace t) then detectDiseasesDebounced t (st\<lparr>liveTranscript := f\<rparr>)
      else st\<lparr>liveTranscript := f\<rparr>)"
  using assms by (simp add: onmessage_def truthy_def Let_def)

lemma onmessage_cases:
  obtains (ignored) "onmessage frame st = st"
  | (handled) data t f where "frame = JsonFrame data" and "\<not> truthy (msg_error data)"
      and "msg_text data = Some t" and "t \<noteq> []" and "formatText t (msg_words data) = Inr f"
proof (cases frame)
  case BinaryFrame
  then show ?thesis using ignored by (simp add: onmessage_def)
next
  case UnparsableFrame
  then show ?thesis using ignored by (simp add: onmessage_def)
next
  case (JsonFrame data)
  show ?thesis
  proof (cases "truthy (msg_error data) \<or> \<not> truthy (msg_text data)")
    case True
    then have "onmessage frame st = st" using JsonFrame by (auto simp: onmessage_def)
    then show ?thesis by (rule ignored)
  next
    case False
    then obtain t where t: "msg_text data = Some t" "t \<noteq> []"
      by (auto simp: truthy_def split: option.splits)
    show ?thesis
    proof (cases "formatText t (msg_words data)")
      case (Inl e)
      then have "onmessage frame st = st"
        using JsonFrame False t by (simp add: onmessage_def Let_def)
      then show ?thesis by (rule ignored)
    next
      case (Inr f)
      then show ?thesis using handled [of data t f] JsonFrame False t by simp
    qed
  qed
qed

lemma onmessage_lastDetectedTextRef:
  "lastDetectedTextRef (onmessage frame st) = lastDetectedTextRef st"
proof (cases frame st rule: onmessage_cases)
  case ignored
  then show ?thesis by simp
next
  case (handled data t f)
  then show ?thesis
    by (simp add: onmessage_text detectDiseases_frame detectDiseasesDebounced_frame)
qed

lemma other_frame:
  "timeouts (onopen st) = timeouts st" "diseaseDetectionTimerRef (onopen st) = diseaseDetectionTimerRef st"
  "lastDetectedTextRef (onopen st) = lastDetectedTextRef st"
  "liveTranscriptHistory (onopen st) = liveTranscriptHistory st"
  "timeouts (onclose c st) = timeouts st" "diseaseDetectionTimerRef (onclose c st) = diseaseDetectionTimerRef st"
  "lastDetectedTextRef (onclose c st) = lastDetectedTextRef st"
  "liveTranscriptHistory (onclose c st) = liveTranscriptHistory st"
  "timeouts (onerror st) = timeouts st" "diseaseDetectionTimerRef (onerror st) = diseaseDetectionTimerRef st"
  "lastDetectedTextRef (onerror st) = lastDetectedTextRef st"
  "liveTranscriptHistory (onerror st) = liveTranscriptHistory st"
  "timeouts (detectDiseasesSettled r st) = timeouts st"
  "diseaseDetectionTimerRef (detectDiseasesSettled r st) = diseaseDetectionTimerRef st"
  "lastDetectedTextRef (detectDiseasesSettled r st) = lastDetectedTextRef st"
  "liveTranscriptHistory (detectDiseasesSettled r st) = liveTranscriptHistory st"
  by (simp_all add: onopen_def onclose_def onerror_def setReadyState_def detectDiseasesSettled_def
      split: option.split AnalyzeResult.split)

lemma stopRecording_frame:
  "timeouts (stopRecording st) = timeouts st"
  "diseaseDetectionTimerRef (stopRecording st) = diseaseDetectionTimerRef st"
  "lastDetectedTextRef (stopRecording st) = lastDetectedTextRef st"
  "liveTranscriptHistory (stopRecording st) = liveTranscriptHistory st"
  by (simp_all add: stopRecording_def Let_def generateSOAP_frame generateRecommendations_frame
      finalizeSocket_frame disconnectNodes_frame)

text \<open>
  A pending timeout stays pending until it fires or a debounced request cancels it: no
  event but the firing of a timeout and an inbound message touches the pending timeouts.
\<close>

lemma timeouts_kept:
  assumes "\<And>h. e \<noteq> TimeoutFired h" and "\<And>frame. e \<noteq> WsMessage frame"
  shows "timeouts (handle e st) = timeouts st"
  using assms by (cases e) (auto simp: other_frame stopRecording_frame)

lemma singleSlot_cong:
  "timeouts st' = timeouts st \<Longrightarrow> diseaseDetectionTimerRef st' = diseaseDetectionTimerRef st \<Longrightarrow>
   singleSlot st' = singleSlot st"
  by (simp add: singleSlot_def)

lemma singleSlot_detectDiseasesDebounced:
  assumes "singleSlot st"
  shows "singleSlot (detectDiseasesDebounced t st)"
  using detectDiseasesDebounced_timeouts [OF assms, of t]
  by (cases "length t < 10 \<or> calculateSimilarity (lastDetectedTextRef st) t > 85 / 100")
     (simp_all add: singleSlot_def)

lemma singleSlot_timeoutFired:
  assumes "singleSlot st"
  shows "singleSlot (timeoutFired h st)"
  using assms
proof (cases rule: singleSlot_cases)
  case 1
  then show ?thesis using assms by (simp add: timeoutFired_def)
next
  case (2 h' d t)
  show ?thesis
  proof (cases "h = h'")
    case True
    with 2 have "timeouts (timeoutFired h st) = []"
      using timeoutFired_pending(2) [of st h d t] by simp
    then show ?thesis by (simp add: singleSlot_def)
  next
    case False
    with 2 have "timeoutFired h st = st" by (simp add: timeoutFired_def)
    then show ?thesis using assms by simp
  qed
qed

lemma singleSlot_onmessage:
  assumes "singleSlot st"
  shows "singleSlot (onmessage frame st)"
proof (cases frame st rule: onmessage_cases)
  case ignored
  then show ?thesis using assms by simp
next
  case (handled data t f)
  have a: "singleSlot (st\<lparr>liveTranscript := f\<rparr>)"
    using assms by (simp add: singleSlot_def)
  have b: "singleSlot (detectDiseases f (st\<lparr>liveTranscriptHistory := liveTranscriptHistory st @ [f], liveTranscript := []\<rparr>))"
    using assms by (simp add: singleSlot_def detectDiseases_frame)
  have c: "singleSlot (detectDiseasesDebounced t (st\<lparr>liveTranscript := f\<rparr>))"
    using a by (rule singleSlot_detectDiseasesDebounced)
  show ?thesis
    unfolding handled(1) onmessage_text [OF handled(2-5)] using a b c by simp
qed

lemma singleSlot_handle:
  assumes "singleSlot st"
  shows "singleSlot (handle e st)"
proof (cases e)
  case WsOpened
  then show ?thesis using assms singleSlot_cong [of "onopen st" st] by (simp add: other_frame)
next
  case (WsMessage frame)
  then show ?thesis using assms by (simp add: singleSlot_onmessage)
next
  case (WsClosed code)
  then show ?thesis using assms singleSlot_cong [of "onclose code st" st] by (simp add: other_frame)
next
  case WsError
  then show ?thesis using assms singleSlot_cong [of "onerror st" st] by (simp add: other_frame)
next
  case (TimeoutFired h)
  then show ?thesis using assms by (simp add: singleSlot_timeoutFired)
next
  case (AnalyzeSettled r)
  then show ?thesis
    using assms singleSlot_cong [of "detectDiseasesSettled r st" st] by (simp add: other_frame)
next
  case StopRecording
  then show ?thesis
    using assms singleSlot_cong [of "stopRecording st" st] by (simp add: stopRecording_frame)
qed

lemma singleSlot_run:
  "singleSlot st \<Longrightarrow> singleSlot (run es st)"
  unfolding run_def by (induction es arbitrary: st) (simp_all add: singleSlot_handle)

lemma singleSlot_initialApp: "singleSlot initialApp"
  by (simp add: singleSlot_def initialApp_def)

section \<open>Formatting\<close>

lemma splitSpace_nonempty: "splitSpace s \<noteq> []"
  by (induction s) (simp_all split: list.split)

lemma length_splitSpace: "length (splitSpace s) = Suc (length (filter (\<lambda>c. c = CHR '' '') s))"
  by (induction s) (auto simp: splitSpace_nonempty split: list.split)

lemma groupedD:
  "grouped seen g \<Longrightarrow> (k, v) \<in> set g \<Longrightarrow> v = map word (filter (\<lambda>x. speakerOf x = k) seen)"
  by (auto simp: grouped_def list_all_iff)

lemma groupedI:
  assumes "distinct (map fst g)" and "set (map fst g) = set (map speakerOf seen)"
    and "\<And>k v. (k, v) \<in> set g \<Longrightarrow> v = map word (filter (\<lambda>x. speakerOf x = k) seen)"
  shows "grouped seen g"
  using assms by (auto simp: grouped_def list_all_iff)

lemma addWord_grouped:
  assumes "grouped seen g" and "addWord g w = Inr g'"
  shows "grouped (seen @ [w]) g'"
proof (cases "map_of g (speakerOf w)")
  case None
  then have fresh: "speakerOf w \<notin> set (map fst g)" by (simp add: map_of_eq_None_iff)
  with assms(1) have ni: "speakerOf w \<notin> speakerOf ` set seen"
    by (simp add: grouped_def)
  have nf: "filter (\<lambda>x. speakerOf x = speakerOf w) seen = []"
    unfolding filter_empty_conv
  proof (intro ballI notI)
    fix x assume "x \<in> set seen" and e: "speakerOf x = speakerOf w"
    then have "speakerOf x \<in> speakerOf ` set seen" by (intro imageI)
    with ni e show False by simp
  qed
  from None assms(2) have g': "g' = g @ [(speakerOf w, [word w])]"
    by (auto simp: addWord_def Let_def split: if_splits)
  show ?thesis
  proof (rule groupedI)
    show "distinct (map fst g')" using assms(1) fresh by (simp add: g' grouped_def)
    show "set (map fst g') = set (map speakerOf (seen @ [w]))"
      using assms(1) by (simp add: g' grouped_def)
    show "v = map word (filter (\<lambda>x. speakerOf x = k) (seen @ [w]))" if "(k, v) \<in> set g'" for k v
    proof (cases "(k, v) \<in> set g")
      case True
      then have "k \<in> set (map fst g)" by force
      with fresh have "speakerOf w \<noteq> k" by auto
      then show ?thesis using groupedD [OF assms(1) True] by simp
    next
      case False
      with that have "k = speakerOf w" and "v = [word w]" by (simp_all add: g')
      then show ?thesis using nf by simp
    qed
  qed
next
  case (Some v0)
  with assms(2) have g': "g' = map (\<lambda>(k, ws). if k = speakerOf w then (k, ws @ [word w]) else (k, ws)) g"
    by (auto simp: addWord_def Let_def split: if_splits)
  have keys: "map fst g' = map fst g"
    unfolding g' by (induction g) auto
  from Some have "(speakerOf w, v0) \<in> set g" by (rule map_of_SomeD)
  then have "speakerOf w \<in> set (map fst g)" by force
  then have k: "set (map fst g) = set (map speakerOf (seen @ [w]))"
    using assms(1) by (auto simp: grouped_def)
  show ?thesis
  proof (rule groupedI)
    show "distinct (map fst g')" using assms(1) by (simp add: keys grouped_def)
    show "set (map fst g') = set (map speakerOf (seen @ [w]))" using k by (simp add: keys)
    show "v = map word (filter (\<lambda>x. speakerOf x = k) (seen @ [w]))" if "(k, v) \<in> set g'" for k v
    proof -
      from that obtain u where u: "(k, u) \<in> set g"
        and v: "v = (if k = speakerOf w then u @ [word w] else u)"
        unfolding g' by (auto split: if_splits)
      show ?thesis using groupedD [OF assms(1) u] v by auto
    qed
  qed
qed

lemma groupWords_grouped:
  "grouped seen g \<Longrightarrow> groupWords g ws = Inr g' \<Longrightarrow> grouped (seen @ ws) g'"
proof (induction ws arbitrary: seen g)
  case Nil
  then show ?case by simp
next
  case (Cons w ws)
  from Cons.prems(2) obtain g1 where a: "addWord g w = Inr g1" and r: "groupWords g1 ws = Inr g'"
    by (auto split: sum.splits)
  have "grouped (seen @ [w]) g1" using Cons.prems(1) a by (rule addWord_grouped)
  then have "grouped ((seen @ [w]) @ ws) g'" using r by (rule Cons.IH)
  then show ?case by simp
qed

lemma groupWords_succeeds:
  "list_all (\<lambda>w. speakerOf w \<notin> set objectPrototypeKeys) ws \<Longrightarrow> \<exists>g'. groupWords g ws = Inr g'"
proof (induction ws arbitrary: g)
  case Nil
  then show ?case by simp
next
  case (Cons w ws)
  then have nk: "speakerOf w \<notin> set objectPrototypeKeys" by simp
  have "\<exists>g1. addWord g w = Inr g1"
    using nk by (cases "map_of g (speakerOf w)") (simp_all add: addWord_def Let_def)
  then obtain g1 where "addWord g w = Inr g1" ..
  moreover obtain g' where "groupWords g1 ws = Inr g'" using Cons by auto
  ultimately show ?case by simp
qed


section \<open>The analysis gate state\<close>

text \<open>
  C10. \<open>lastDetectedTextRef\<close> is written in one place only, the callback of the debounce
  timer: an event changes it only if it is the firing of a pending timeout, which stores
  the text that timeout captured. In particular the immediate analysis of a final
  segment (\<open>detectDiseases\<close>) and a debounced request, dropped or not, leave it unchanged.
\<close>

theorem lastDetectedTextRef_written_by_timer_only:
  "lastDetectedTextRef (handle e st) =
     (case e of
        TimeoutFired h \<Rightarrow>
          (case map_of (timeouts st) h of
             None \<Rightarrow> lastDetectedTextRef st
           | Some (d, t) \<Rightarrow> t)
      | _ \<Rightarrow> lastDetectedTextRef st)
   \<and> lastDetectedTextRef (detectDiseases t st) = lastDetectedTextRef st
   \<and> lastDetectedTextRef (detectDiseasesDebounced t st) = lastDetectedTextRef st"
  by (cases e)
     (simp_all add: timeoutFired_lastDetectedTextRef onmessage_lastDetectedTextRef other_frame
        stopRecording_frame detectDiseases_frame detectDiseasesDebounced_frame)

theorem lastDetectedTextRef_written_by_timer_only_witness:
  "lastDetectedTextRef
     (handle (WsMessage (JsonFrame \<lparr>msg_error = None, msg_text = Some ''I have a cough'',
                                   msg_words = None, msg_is_final = True\<rparr>))
        (recordingApp\<lparr>lastDetectedTextRef := ''earlier text''\<rparr>)) = ''earlier text''
   \<and> lastDetectedTextRef
       (handle (TimeoutFired 1)
          (recordingApp\<lparr>lastDetectedTextRef := ''earlier text'',
                        timeouts := [(1, 1500, ''I have a cough and a fever'')],
                        diseaseDetectionTimerRef := Some 1\<rparr>)) = ''I have a cough and a fever''
   \<and> lastDetectedTextRef
       (detectDiseasesDebounced ''I have''
          (recordingApp\<lparr>lastDetectedTextRef := ''earlier text''\<rparr>)) = ''earlier text''"
  using lastDetectedTextRef_written_by_timer_only
      [of "WsMessage (JsonFrame \<lparr>msg_error = None, msg_text = Some ''I have a cough'',
                                   msg_words = None, msg_is_final = True\<rparr>)"
          "recordingApp\<lparr>lastDetectedTextRef := ''earlier text''\<rparr>"]
    lastDetectedTextRef_written_by_timer_only
      [of "TimeoutFired 1"
          "recordingApp\<lparr>lastDetectedTextRef := ''earlier text'',
                        timeouts := [(1, 1500, ''I have a cough and a fever'')],
                        diseaseDetectionTimerRef := Some 1\<rparr>"]
    lastDetectedTextRef_written_by_timer_only
      [of _ "recordingApp\<lparr>lastDetectedTextRef := ''earlier text''\<rparr>" "''I have''"]
  by (simp add: recordingApp_def initialApp_def)

section \<open>Debounced analysis requests\<close>

text \<open>
  C1, as the code has it. In a state where the debounce timer is a single slot, a
  debounced request with text \<open>t\<close> first cancels the pending timer. It is then dropped,
  with no timer scheduled, no request issued and \<open>lastDetectedTextRef\<close> unchanged, if
  \<open>t\<close> has fewer than 10 characters or its similarity to \<open>lastDetectedTextRef\<close> exceeds
  0.85. Otherwise exactly one timer is pending, with a delay of 1500 ms; when it fires it
  stores \<open>t\<close> in \<open>lastDetectedTextRef\<close> and issues the analysis request for \<open>t\<close>.
\<close>

theorem detectDiseasesDebounced_gate:
  assumes "singleSlot st"
  shows "(if length t < 10 \<or> calculateSimilarity (lastDetectedTextRef st) t > 85 / 100
          then timeouts (detectDiseasesDebounced t st) = []
             \<and> requests (detectDiseasesDebounced t st) = requests st
             \<and> lastDetectedTextRef (detectDiseasesDebounced t st) = lastDetectedTextRef st
          else timeouts (detectDiseasesDebounced t st) = [(nextTimeoutId st, 1500, t)]
             \<and> diseaseDetectionTimerRef (detectDiseasesDebounced t st) = Some (nextTimeoutId st)
             \<and> lastDetectedTextRef (timeoutFired (nextTimeoutId st) (detectDiseasesDebounced t st)) = t
             \<and> requests (timeoutFired (nextTimeoutId st) (detectDiseasesDebounced t st)) =
                 requests st @ (case session st of None \<Rightarrow> [] | Some s \<Rightarrow> [Analyze (session_id s) t])
             \<and> timeouts (timeoutFired (nextTimeoutId st) (detectDiseasesDebounced t st)) = [])"
proof (cases "length t < 10 \<or> calculateSimilarity (lastDetectedTextRef st) t > 85 / 100")
  case True
  then show ?thesis
    using detectDiseasesDebounced_timeouts(1) [OF assms, of t]
    by (simp add: detectDiseasesDebounced_frame)
next
  case False
  then have p: "timeouts (detectDiseasesDebounced t st) = [(nextTimeoutId st, 1500, t)]"
    using detectDiseasesDebounced_timeouts(1) [OF assms, of t] by simp
  show ?thesis
    using False p detectDiseasesDebounced_timeouts(2) [OF assms, of t]
      timeoutFired_pending [OF p]
    by (simp add: detectDiseasesDebounced_frame)
qed


theorem detectDiseasesDebounced_gate_witness:
  "singleSlot recordingApp
   \<and> timeouts (detectDiseasesDebounced ''Patient reports chest pain and shortness of breath'' recordingApp)
       = [(1, 1500, ''Patient reports chest pain and shortness of breath'')]
   \<and> diseaseDetectionTimerRef
        (detectDiseasesDebounced ''Patient reports chest pain and shortness of breath'' recordingApp)
       = Some 1
   \<and> lastDetectedTextRef
        (timeoutFired 1
          (detectDiseasesDebounced ''Patient reports chest pain and shortness of breath'' recordingApp))
       = ''Patient reports chest pain and shortness of breath''
   \<and> requests
        (timeoutFired 1
          (detectDiseasesDebounced ''Patient reports chest pain and shortness of breath'' recordingApp))
       = [Analyze ''s-1'' ''Patient reports chest pain and shortness of breath'']
   \<and> timeouts
        (detectDiseasesDebounced ''patient reports chest pain and shortness of breath today''
          (recordingApp\<lparr>lastDetectedTextRef := ''Patient reports chest pain and shortness of breath'',
                        timeouts := [(1, 1500, ''Patient reports chest pain and shortness'')],
                        diseaseDetectionTimerRef := Some 1, nextTimeoutId := 2\<rparr>))
       = []"
proof -
  let ?t = "''Patient reports chest pain and shortness of breath''"
  let ?u = "''patient reports chest pain and shortness of breath today''"
  let ?st = "recordingApp\<lparr>lastDetectedTextRef := ?t,
                        timeouts := [(1, 1500, ''Patient reports chest pain and shortness'')],
                        diseaseDetectionTimerRef := Some 1, nextTimeoutId := 2\<rparr>"
  have a: "singleSlot recordingApp"
    by (simp add: singleSlot_def recordingApp_def initialApp_def)
  have b: "singleSlot ?st"
    by (simp add: singleSlot_def)
  have c: "\<not> (length ?t < 10 \<or> calculateSimilarity (lastDetectedTextRef recordingApp) ?t > 85 / 100)"
    by (simp add: recordingApp_def initialApp_def calculateSimilarity_def)
  have d: "calculateSimilarity ?t ?u > 85 / 100"
    by code_simp
  have e: "lastDetectedTextRef ?st = ?t" "nextTimeoutId recordingApp = 1"
    "requests recordingApp = []" "session recordingApp = Some \<lparr>session_id = ''s-1''\<rparr>"
    by (simp_all add: recordingApp_def initialApp_def)
  show ?thesis
    using a c detectDiseasesDebounced_gate [OF a, of ?t]
      detectDiseasesDebounced_gate [OF b, of ?u] d
    by (simp add: e)
qed

theorem detectDiseasesDebounced_short_text_counterexample:
  "\<not> calculateSimilarity (lastDetectedTextRef recordingApp) ''a b c d e'' > 85 / 100
   \<and> 5 \<le> length (splitSpace ''a b c d e'')
   \<and> timeouts (detectDiseasesDebounced ''a b c d e'' recordingApp) = []
   \<and> timeouts
        (onmessage (JsonFrame \<lparr>msg_error = None, msg_text = Some ''a b c d e'',
                              msg_words = None, msg_is_final = False\<rparr>) recordingApp) = []
   \<and> debouncedCalls
        (onmessage (JsonFrame \<lparr>msg_error = None, msg_text = Some ''a b c d e'',
                              msg_words = None, msg_is_final = False\<rparr>) recordingApp) = [''a b c d e'']"
  by (simp add: recordingApp_def initialApp_def calculateSimilarity_def detectDiseasesDebounced_def
      onmessage_def truthy_def formatText_def Let_def)

section \<open>Inbound transcript messages\<close>

text \<open>
  C2, as the code has it. For a message without error, with a non-empty text \<open>t\<close> that
  is not final and formats to \<open>f\<close>: the interim slot becomes \<open>f\<close>, and
  \<open>detectDiseasesDebounced\<close> is called, with the raw text, exactly when
  \<open>t.split(' ')\<close> has at least five pieces, which is when \<open>t\<close> holds at least four space
  characters. The transcript history is unchanged.
\<close>

theorem onmessage_interim:
  assumes "\<not> truthy (msg_error data)" and "msg_text data = Some t" and "t \<noteq> []"
    and "\<not> msg_is_final data" and "formatText t (msg_words data) = Inr f"
  shows "liveTranscript (onmessage (JsonFrame data) st) = f
       \<and> debouncedCalls (onmessage (JsonFrame data) st) =
           debouncedCalls st @ (if 5 \<le> length (splitSpace t) then [t] else [])
       \<and> length (splitSpace t) = Suc (length (filter (\<lambda>c. c = CHR '' '') t))
       \<and> liveTranscriptHistory (onmessage (JsonFrame data) st) = liveTranscriptHistory st"
  using assms(4) length_splitSpace [of t]
  by (simp add: onmessage_text [OF assms(1,2,3,5)] detectDiseasesDebounced_frame)

theorem onmessage_interim_witness:
  "liveTranscript
     (onmessage (JsonFrame \<lparr>msg_error = None, msg_text = Some ''Patient reports chest pain'',
                           msg_words = None, msg_is_final = False\<rparr>) recordingApp)
     = ''Patient reports chest pain''
   \<and> debouncedCalls
       (onmessage (JsonFrame \<lparr>msg_error = None, msg_text = Some ''Patient reports chest pain'',
                             msg_words = None, msg_is_final = False\<rparr>) recordingApp) = []
   \<and> debouncedCalls
       (onmessage (JsonFrame \<lparr>msg_error = None,
                             msg_text = Some ''Patient reports chest pain and shortness of breath'',
                             msg_words = None, msg_is_final = False\<rparr>) recordingApp)
     = [''Patient reports chest pain and shortness of breath'']"
  using onmessage_interim
      [of "\<lparr>msg_error = None, msg_text = Some ''Patient reports chest pain'',
            msg_words = None, msg_is_final = False\<rparr>"
          "''Patient reports chest pain''" "''Patient reports chest pain''" recordingApp]
    onmessage_interim
      [of "\<lparr>msg_error = None, msg_text = Some ''Patient reports chest pain and shortness of breath'',
            msg_words = None, msg_is_final = False\<rparr>"
          "''Patient reports chest pain and shortness of breath''"
          "''Patient reports chest pain and shortness of breath''" recordingApp]
  by (simp add: truthy_def formatText_def recordingApp_def initialApp_def)

theorem onmessage_interim_double_space_counterexample:
  "length (whitespaceTokens ''chest  pain  now'') = 3
   \<and> length (splitWs ''chest  pain  now'') = 3
   \<and> length (splitSpace ''chest  pain  now'') = 5
   \<and> debouncedCalls
       (onmessage (JsonFrame \<lparr>msg_error = None, msg_text = Some ''chest  pain  now'',
                             msg_words = None, msg_is_final = False\<rparr>) recordingApp)
     = [''chest  pain  now'']
   \<and> timeouts
       (onmessage (JsonFrame \<lparr>msg_error = None, msg_text = Some ''chest  pain  now'',
                             msg_words = None, msg_is_final = False\<rparr>) recordingApp)
     = [(1, 1500, ''chest  pain  now'')]"
  by code_simp




text \<open>
  A speaker tag that names a property inherited from \<open>Object.prototype\<close> makes the
  formatting raise; the handler catches the error and the message is lost.
\<close>

lemma onmessage_inherited_key:
  "formatText ''hello'' (Some [\<lparr>word = ''hello'', speaker_tag = Some ''constructor''\<rparr>]) = Inl TypeError
   \<and> liveTranscriptHistory
       (onmessage (JsonFrame \<lparr>msg_error = None, msg_text = Some ''hello'',
                             msg_words = Some [\<lparr>word = ''hello'', speaker_tag = Some ''constructor''\<rparr>],
                             msg_is_final = True\<rparr>) recordingApp) = []
   \<and> requests
       (onmessage (JsonFrame \<lparr>msg_error = None, msg_text = Some ''hello'',
                             msg_words = Some [\<lparr>word = ''hello'', speaker_tag = Some ''constructor''\<rparr>],
                             msg_is_final = True\<rparr>) recordingApp) = []"
  by code_simp

section \<open>Transcript history\<close>

lemma onmessage_history:
  "liveTranscriptHistory (onmessage frame st) = liveTranscriptHistory st @ appended (WsMessage frame)"
proof (cases frame)
  case (JsonFrame data)
  show ?thesis
  proof (cases "\<not> truthy (msg_error data) \<and> truthy (msg_text data)")
    case False
    then show ?thesis using JsonFrame by (auto simp: onmessage_def)
  next
    case True
    then obtain t where t: "msg_text data = Some t" "t \<noteq> []"
      by (auto simp: truthy_def split: option.splits)
    show ?thesis
    proof (cases "formatText t (msg_words data)")
      case (Inl e)
      then show ?thesis using JsonFrame True t by (simp add: onmessage_def Let_def)
    next
      case (Inr f)
      have "onmessage frame st =
        (if msg_is_final data then
           detectDiseases f (st\<lparr>liveTranscriptHistory := liveTranscriptHistory st @ [f], liveTranscript := []\<rparr>)
         else if 5 \<le> length (splitSpace t) then detectDiseasesDebounced t (st\<lparr>liveTranscript := f\<rparr>)
         else st\<lparr>liveTranscript := f\<rparr>)"
        unfolding JsonFrame using True t Inr by (intro onmessage_text) simp_all
      then show ?thesis
        using JsonFrame True t Inr
        by (simp add: detectDiseases_frame detectDiseasesDebounced_frame)
    qed
  qed
qed (simp_all add: onmessage_def)

lemma timeoutFired_history:
  "liveTranscriptHistory (timeoutFired h st) = liveTranscriptHistory st"
  by (simp add: timeoutFired_def detectDiseases_frame clearTimeout_frame split: option.split)

lemma handle_history:
  "liveTranscriptHistory (handle e st) = liveTranscriptHistory st @ appended e"
  by (cases e)
     (simp_all add: onmessage_history timeoutFired_history other_frame stopRecording_frame)

lemma run_history:
  "liveTranscriptHistory (run es st) = liveTranscriptHistory st @ concat (map appended es)"
  unfolding run_def by (induction es arbitrary: st) (simp_all add: handle_history)

lemma objectEntries_perm:
  "set (objectEntries g) = set g" "length (objectEntries g) = length g"
proof -
  let ?P = "\<lambda>e :: string \<times> 'a. case e of (k, _) \<Rightarrow> arrayIndex k \<noteq> None"
  have n: "(\<lambda>e :: string \<times> 'a. case e of (k, _) \<Rightarrow> arrayIndex k = None) = (\<lambda>e. \<not> ?P e)"
    by (rule ext) (simp add: case_prod_beta)
  show "set (objectEntries g) = set g"
    unfolding objectEntries_def n by auto
  show "length (objectEntries g) = length g"
    unfolding objectEntries_def n by (simp add: sum_length_filter_compl)
qed

text \<open>
  C5, as the code has it. After any sequence of events the transcript history is its
  previous content followed by the formatted texts of the final messages that carry no
  error and a non-empty text, in the order of arrival; every other event, a final message
  with an empty text among them, adds nothing. The formatted text is the raw text when
  no words are given; otherwise the words are grouped by speaker tag (\<open>SPEAKER_1\<close> when
  the tag is missing or empty), each group is rendered as its label, \<open>Patient\<close> for
  \<open>SPEAKER_2\<close> and \<open>Doctor\<close> for any other tag, a colon and the group's words joined
  by spaces, and the groups, each once, are joined by line feeds.
\<close>

theorem history_ordering:
  "liveTranscriptHistory (run es st) = liveTranscriptHistory st @ concat (map appended es)
   \<and> formatText t None = Inr t
   \<and> formatText t (Some []) = Inr t
   \<and> (ws \<noteq> [] \<and> groupWords [] ws = Inr g \<longrightarrow>
        formatText t (Some ws) = Inr (join [CHR 0x0A] (map renderGroup (objectEntries g)))
        \<and> grouped ws g \<and> set (objectEntries g) = set g \<and> length (objectEntries g) = length g)
   \<and> renderGroup (k, v) = (if k = ''SPEAKER_2'' then ''Patient'' else ''Doctor'') @ '': '' @ join '' '' v
   \<and> (\<not> truthy (speaker_tag w) \<longrightarrow> speakerOf w = ''SPEAKER_1'')"
proof -
  have "grouped [] []" by (simp add: grouped_def)
  then have "grouped ws g" if "groupWords [] ws = Inr g"
    using groupWords_grouped [of "[]" "[]" ws g] that by simp
  then show ?thesis
    by (simp add: run_history formatText_def renderGroup_def speakerOf_def objectEntries_perm)
qed

theorem history_ordering_witness:
  "liveTranscriptHistory
     (run [WsMessage (JsonFrame \<lparr>msg_error = None, msg_text = Some ''how are you fine'',
              msg_words = Some [\<lparr>word = ''how'', speaker_tag = Some ''SPEAKER_1''\<rparr>,
                                \<lparr>word = ''are'', speaker_tag = None\<rparr>,
                                \<lparr>word = ''you'', speaker_tag = Some ''SPEAKER_1''\<rparr>,
                                \<lparr>word = ''fine'', speaker_tag = Some ''SPEAKER_2''\<rparr>],
              msg_is_final = True\<rparr>),
           WsMessage (JsonFrame \<lparr>msg_error = None, msg_text = Some ''I have'',
              msg_words = None, msg_is_final = False\<rparr>),
           WsMessage (JsonFrame \<lparr>msg_error = None, msg_text = Some ''I have a cough'',
              msg_words = None, msg_is_final = True\<rparr>)]
        recordingApp)
   = [''Doctor: how are you'' @ [CHR 0x0A] @ ''Patient: fine'', ''I have a cough'']
   \<and> groupWords []
        [\<lparr>word = ''how'', speaker_tag = Some ''SPEAKER_1''\<rparr>,
         \<lparr>word = ''are'', speaker_tag = None\<rparr>,
         \<lparr>word = ''you'', speaker_tag = Some ''SPEAKER_1''\<rparr>,
         \<lparr>word = ''fine'', speaker_tag = Some ''SPEAKER_2''\<rparr>]
       = Inr [(''SPEAKER_1'', [''how'', ''are'', ''you'']), (''SPEAKER_2'', [''fine''])]
   \<and> formatText ''how are you fine''
        (Some [\<lparr>word = ''how'', speaker_tag = Some ''SPEAKER_1''\<rparr>,
               \<lparr>word = ''are'', speaker_tag = None\<rparr>,
               \<lparr>word = ''you'', speaker_tag = Some ''SPEAKER_1''\<rparr>,
               \<lparr>word = ''fine'', speaker_tag = Some ''SPEAKER_2''\<rparr>])
       = Inr (''Doctor: how are you'' @ [CHR 0x0A] @ ''Patient: fine'')
   \<and> grouped
        [\<lparr>word = ''how'', speaker_tag = Some ''SPEAKER_1''\<rparr>,
         \<lparr>word = ''are'', speaker_tag = None\<rparr>,
         \<lparr>word = ''you'', speaker_tag = Some ''SPEAKER_1''\<rparr>,
         \<lparr>word = ''fine'', speaker_tag = Some ''SPEAKER_2''\<rparr>]
        [(''SPEAKER_1'', [''how'', ''are'', ''you'']), (''SPEAKER_2'', [''fine''])]
   \<and> speakerOf \<lparr>word = ''are'', speaker_tag = None\<rparr> = ''SPEAKER_1''"
proof -
  let ?ws = "[\<lparr>word = ''how'', speaker_tag = Some ''SPEAKER_1''\<rparr>,
              \<lparr>word = ''are'', speaker_tag = None\<rparr>,
              \<lparr>word = ''you'', speaker_tag = Some ''SPEAKER_1''\<rparr>,
              \<lparr>word = ''fine'', speaker_tag = Some ''SPEAKER_2''\<rparr>]"
  let ?g = "[(''SPEAKER_1'', [''how'', ''are'', ''you'']), (''SPEAKER_2'', [''fine''])]"
  let ?es = "[WsMessage (JsonFrame \<lparr>msg_error = None, msg_text = Some ''how are you fine'',
              msg_words = Some ?ws, msg_is_final = True\<rparr>),
           WsMessage (JsonFrame \<lparr>msg_error = None, msg_text = Some ''I have'',
              msg_words = None, msg_is_final = False\<rparr>),
           WsMessage (JsonFrame \<lparr>msg_error = None, msg_text = Some ''I have a cough'',
              msg_words = None, msg_is_final = True\<rparr>)]"
  have e: "concat (map appended ?es) =
       [''Doctor: how are you'' @ [CHR 0x0A] @ ''Patient: fine'', ''I have a cough'']"
    by code_simp
  have h: "liveTranscriptHistory recordingApp = []"
    by (simp add: recordingApp_def initialApp_def)
  have g: "groupWords [] ?ws = Inr ?g"
    by code_simp
  have r: "join [CHR 0x0A] (map renderGroup (objectEntries ?g))
        = ''Doctor: how are you'' @ [CHR 0x0A] @ ''Patient: fine''"
    by code_simp
  have t: "\<not> truthy (speaker_tag \<lparr>word = ''are'', speaker_tag = None\<rparr>)"
    by (simp add: truthy_def)
  have n: "?ws \<noteq> []" by simp
  note w = history_ordering
    [of ?es recordingApp "''how are you fine''" ?ws ?g _ _ "\<lparr>word = ''are'', speaker_tag = None\<rparr>"]
  from w have 1: "liveTranscriptHistory (run ?es recordingApp)
      = liveTranscriptHistory recordingApp @ concat (map appended ?es)"
    by (rule conjunct1)
  from w n g have 2: "formatText ''how are you fine'' (Some ?ws)
      = Inr (join [CHR 0x0A] (map renderGroup (objectEntries ?g)))" and 3: "grouped ?ws ?g"
    by blast+
  from w t have 4: "speakerOf \<lparr>word = ''are'', speaker_tag = None\<rparr> = ''SPEAKER_1''"
    by blast
  show ?thesis
    using 1 2 3 4 g by (simp only: e h r append_Nil simp_thms)
qed

theorem history_ordering_empty_text_counterexample:
  "msg_is_final \<lparr>msg_error = None, msg_text = Some [], msg_words = None, msg_is_final = True\<rparr>
   \<and> formatText [] None = Inr []
   \<and> liveTranscriptHistory
       (run [WsMessage (JsonFrame \<lparr>msg_error = None, msg_text = Some [], msg_words = None,
                                    msg_is_final = True\<rparr>)] recordingApp) = []
   \<and> liveTranscriptHistory
       (run [WsMessage (JsonFrame \<lparr>msg_error = None, msg_text = Some [], msg_words = None,
                                    msg_is_final = True\<rparr>)] recordingApp) \<noteq> [[]]"
  by (simp add: run_def onmessage_def truthy_def formatText_def recordingApp_def initialApp_def)

end
